theory Spec2Isabelle
  imports Complex_Main
begin

unbundle bit_operations_syntax

section \<open>Strings and regular expressions of the host language\<close>

text \<open>
  The plugin is TypeScript. Its strings are modelled as \<open>string\<close> (a list of 8-bit
  characters), one \<open>char\<close> per UTF-16 code unit; the model therefore covers text in the
  Latin-1 range, which is where every literal of the source lives. Offsets (\<open>ch\<close>,
  \<open>match.index\<close>, \<open>length\<close>) are natural numbers counting characters.

  The source uses three regular expression literals. They are built from literal text and
  from quantified character classes only, so a pattern is a list of such atoms, matched by
  backtracking in the priority order of ECMAScript: a greedy quantifier first tries to
  consume, a lazy one first tries to stop.
\<close>

datatype cclass =
    OneOf "char list"    \<comment> \<open>\<open>[abc]\<close>\<close>
  | NoneOf "char list"   \<comment> \<open>\<open>[^abc]\<close>; \<open>.\<close> is \<open>[^\n\r]\<close>\<close>
  | Digit                \<comment> \<open>\<open>\d\<close>\<close>

fun inClass :: "cclass \<Rightarrow> char \<Rightarrow> bool" where
  "inClass (OneOf cs) c = (c \<in> set cs)"
| "inClass (NoneOf cs) c = (c \<notin> set cs)"
| "inClass Digit c = ((48::int) \<le> of_char c \<and> (of_char c :: int) \<le> 57)"

datatype atom =
    Lit string           \<comment> \<open>literal text\<close>
  | Opt cclass           \<comment> \<open>\<open>c?\<close>\<close>
  | Star cclass          \<comment> \<open>\<open>c*\<close>\<close>
  | Plus cclass          \<comment> \<open>\<open>c+\<close>\<close>
  | LazyStar cclass      \<comment> \<open>\<open>c*?\<close>\<close>

type_synonym regex = "atom list"

text \<open>
  \<open>matchHere re s\<close> matches the pattern at the start of \<open>s\<close>. On success it returns
  the text consumed by each atom, in order: their concatenation is \<open>match[0]\<close>, and the
  piece of a parenthesised atom is its capture group.
\<close>

fun consPiece :: "char \<Rightarrow> string list option \<Rightarrow> string list option" where
  "consPiece x (Some (p # ps)) = Some ((x # p) # ps)"
| "consPiece x _ = None"

fun matchHere :: "regex \<Rightarrow> string \<Rightarrow> string list option" where
  "matchHere [] s = Some []"
| "matchHere (Lit l # re) s =
     (if take (length l) s = l
      then map_option ((#) l) (matchHere re (drop (length l) s))
      else None)"
| "matchHere (Opt c # re) [] = map_option ((#) []) (matchHere re [])"
| "matchHere (Opt c # re) (x # xs) =
     (if inClass c x
      then (case matchHere re xs of
              Some ps \<Rightarrow> Some ([x] # ps)
            | None \<Rightarrow> map_option ((#) []) (matchHere re (x # xs)))
      else map_option ((#) []) (matchHere re (x # xs)))"
| "matchHere (Star c # re) [] = map_option ((#) []) (matchHere re [])"
| "matchHere (Star c # re) (x # xs) =
     (if inClass c x
      then (case consPiece x (matchHere (Star c # re) xs) of
              Some ps \<Rightarrow> Some ps
            | None \<Rightarrow> map_option ((#) []) (matchHere re (x # xs)))
      else map_option ((#) []) (matchHere re (x # xs)))"
| "matchHere (Plus c # re) [] = None"
| "matchHere (Plus c # re) (x # xs) =
     (if inClass c x then consPiece x (matchHere (Star c # re) xs) else None)"
| "matchHere (LazyStar c # re) [] = map_option ((#) []) (matchHere re [])"
| "matchHere (LazyStar c # re) (x # xs) =
     (case matchHere re (x # xs) of
        Some ps \<Rightarrow> Some ([] # ps)
      | None \<Rightarrow> if inClass c x then consPiece x (matchHere (LazyStar c # re) xs) else None)"

text \<open>
  \<open>search re s\<close> is one \<open>exec\<close>: the leftmost position of \<open>s\<close> where the pattern
  matches, as the number of characters skipped, with the pieces of the match.
\<close>

fun search :: "regex \<Rightarrow> string \<Rightarrow> (nat \<times> string list) option" where
  "search re [] = map_option (Pair 0) (matchHere re [])"
| "search re (x # xs) =
     (case matchHere re (x # xs) of
        Some ps \<Rightarrow> Some (0, ps)
      | None \<Rightarrow> map_option (\<lambda>(i, ps). (Suc i, ps)) (search re xs))"

text \<open>
  \<open>matchAll re s i\<close> is the sequence of matches of a pattern with the \<open>g\<close> flag over
  the text \<open>s\<close> that starts at offset \<open>i\<close> of the subject: each entry is
  (\<open>match.index\<close>, pieces). After a match the scan resumes at its end; after an empty
  match it resumes one character further, as \<open>String.prototype.match\<close> and
  \<open>replace\<close> do. The patterns of this program never match the empty string (lemma
  \<open>patterns_consume\<close> below), so a \<open>while\<close> loop over \<open>exec\<close> visits the same
  matches.
\<close>

function matchAll :: "regex \<Rightarrow> string \<Rightarrow> nat \<Rightarrow> (nat \<times> string list) list" where
  "matchAll re s i =
     (case search re s of
        None \<Rightarrow> []
      | Some (j, ps) \<Rightarrow>
          (i + j, ps) #
          (if s = [] then []
           else matchAll re (drop (j + max 1 (length (concat ps))) s)
                             (i + j + max 1 (length (concat ps)))))"
  by pat_completeness auto
termination
  by (relation "measure (\<lambda>(re, s, i). length s)") (auto simp: max_def neq_Nil_conv)

declare matchAll.simps [simp del]

text \<open>The three patterns of the source.\<close>

definition markRegex :: regex where
  \<comment> \<open>\<open>/<mark[^>]*>(.*?)<\/mark>/g\<close>\<close>
  "markRegex = [Lit ''<mark'', Star (NoneOf ''>''), Lit ''>'',
                LazyStar (NoneOf [CHR 0x0A, CHR 0x0D]), Lit ''</mark>'']"

definition tagRegex :: regex where
  \<comment> \<open>\<open>/<\/?mark[^>]*>/g\<close>\<close>
  "tagRegex = [Lit ''<'', Opt (OneOf ''/''), Lit ''mark'', Star (NoneOf ''>''), Lit ''>'']"

definition indexRegex :: regex where
  \<comment> \<open>\<open>/<mark[^>]*highlightindex=["']?(\d+)["']?[^>]*>/\<close>; the group is piece 4\<close>
  "indexRegex = [Lit ''<mark'', Star (NoneOf ''>''), Lit ''highlightindex='',
                 Opt (OneOf [CHR 0x22, CHR 0x27]), Plus Digit,
                 Opt (OneOf [CHR 0x22, CHR 0x27]), Star (NoneOf ''>''), Lit ''>'']"

section \<open>Numbers of the host language\<close>

text \<open>
  Outside the hue formula and the random draw, a number of the program is an
  integer-valued double, \<open>NaN\<close> or an infinity. The arithmetic of the toggle and of the
  colour conversion stays on integers below \<open>2 ^ 53\<close>, where doubles are exact, except
  the conversion of a long digit string, which rounds to the nearest double (ties to even)
  and is written out in \<open>toDouble\<close>.
\<close>

datatype number = Num int | NaN | PosInfinity | NegInfinity

function bitLength :: "int \<Rightarrow> nat" where
  "bitLength n = (if n \<le> 0 then 0 else Suc (bitLength (n div 2)))"
  by pat_completeness auto
termination
  by (relation "measure nat") auto

declare bitLength.simps [simp del]

definition toDouble :: "int \<Rightarrow> number" where
  \<comment> \<open>the double nearest to a non-negative integer\<close>
  "toDouble n =
     (if n < 2 ^ 53 then Num n
      else let e = bitLength n - 53;
               q = n div 2 ^ e;
               rest = n mod 2 ^ e;
               q' = (if 2 * rest > 2 ^ e \<or> (2 * rest = 2 ^ e \<and> odd q) then q + 1 else q)
           in if q' * 2 ^ e \<ge> 2 ^ 1024 then PosInfinity else Num (q' * 2 ^ e))"

fun negate :: "number \<Rightarrow> number" where
  "negate (Num i) = Num (- i)"
| "negate NaN = NaN"
| "negate PosInfinity = NegInfinity"
| "negate NegInfinity = PosInfinity"

fun add :: "number \<Rightarrow> number \<Rightarrow> number" where
  "add (Num i) (Num j) = Num (i + j)"
| "add NaN _ = NaN"
| "add _ NaN = NaN"
| "add PosInfinity NegInfinity = NaN"
| "add NegInfinity PosInfinity = NaN"
| "add PosInfinity _ = PosInfinity"
| "add _ PosInfinity = PosInfinity"
| "add NegInfinity _ = NegInfinity"
| "add _ NegInfinity = NegInfinity"

definition remainder :: "nat \<Rightarrow> nat \<Rightarrow> number" where
  \<comment> \<open>\<open>a % b\<close> on non-negative integers: \<open>NaN\<close> when \<open>b\<close> is zero\<close>
  "remainder a b = (if b = 0 then NaN else Num (int (a mod b)))"

definition toInt32 :: "number \<Rightarrow> int" where
  \<comment> \<open>the conversion every bitwise operator applies to its operands\<close>
  "toInt32 x =
     (case x of
        Num i \<Rightarrow> (let m = i mod 2 ^ 32 in if m \<ge> 2 ^ 31 then m - 2 ^ 32 else m)
      | _ \<Rightarrow> 0)"

definition isWhiteSpace :: "char \<Rightarrow> bool" where
  "isWhiteSpace c = (c \<in> set [CHR 0x09, CHR 0x0A, CHR 0x0B, CHR 0x0C, CHR 0x0D, CHR 0x20, CHR 0xA0])"

definition digitValue :: "char \<Rightarrow> int option" where
  "digitValue c =
     (let n = (of_char c :: int) in
      if 48 \<le> n \<and> n \<le> 57 then Some (n - 48)
      else if 97 \<le> n \<and> n \<le> 122 then Some (n - 87)
      else if 65 \<le> n \<and> n \<le> 90 then Some (n - 55)
      else None)"

definition isDigitOf :: "int \<Rightarrow> char \<Rightarrow> bool" where
  "isDigitOf radix c = (case digitValue c of Some d \<Rightarrow> d < radix | None \<Rightarrow> False)"

definition parseInt :: "string \<Rightarrow> int \<Rightarrow> number" where
  \<comment> \<open>\<open>parseInt(s, radix)\<close> for the radices the source passes, 10 and 16\<close>
  "parseInt s radix =
     (let S = dropWhile isWhiteSpace s;
          negative = (take 1 S = ''-'');
          S1 = (if take 1 S = ''+'' \<or> take 1 S = ''-'' then drop 1 S else S);
          S2 = (if radix = 16 \<and> (take 2 S1 = ''0x'' \<or> take 2 S1 = ''0X'') then drop 2 S1 else S1);
          Z = takeWhile (isDigitOf radix) S2
      in if Z = [] then NaN
         else let mathInt = foldl (\<lambda>a c. case digitValue c of Some d \<Rightarrow> a * radix + d | None \<Rightarrow> a) 0 Z
              in if negative then negate (toDouble mathInt) else toDouble mathInt)"

definition digitChar :: "int \<Rightarrow> char" where
  \<comment> \<open>the digit of a value below 36\<close>
  "digitChar d = ''0123456789abcdefghijklmnopqrstuvwxyz'' ! nat d"

function digitsOf :: "int \<Rightarrow> int \<Rightarrow> string" where
  "digitsOf radix n =
     (if n < radix \<or> radix < 2 then [digitChar n]
      else digitsOf radix (n div radix) @ [digitChar (n mod radix)])"
  by pat_completeness auto
termination
  by (relation "measure (\<lambda>(radix, n). nat n)") (auto intro!: int_div_less_self)

declare digitsOf.simps [simp del]

definition toString :: "int \<Rightarrow> int \<Rightarrow> string" where
  \<comment> \<open>\<open>n.toString(radix)\<close>, and the decimal text of a number in a template literal\<close>
  "toString n radix = (if n < 0 then ''-'' @ digitsOf radix (- n) else digitsOf radix n)"

definition padStart :: "nat \<Rightarrow> char \<Rightarrow> string \<Rightarrow> string" where
  "padStart n c s = replicate (n - length s) c @ s"

definition slice :: "string \<Rightarrow> nat \<Rightarrow> nat \<Rightarrow> string" where
  "slice s start end' = take (end' - start) (drop start s)"

text \<open>
  Where the source computes with fractions (the product with \<open>Math.random()\<close>, the hue
  formula), every operation returns the double nearest to the exact result, ties going to
  the even significand. A double is a real number here; \<open>roundToDouble\<close> is that
  rounding, for magnitudes in the normal range of binary64 (from \<open>2 ^ -1022\<close> to
  \<open>2 ^ 1024\<close>), which the values of this program never leave.
\<close>

definition pow2 :: "int \<Rightarrow> real" where
  "pow2 k = (if 0 \<le> k then 2 ^ nat k else 1 / 2 ^ nat (- k))"

definition exponentOf :: "real \<Rightarrow> int" where
  \<comment> \<open>for \<open>x > 0\<close>, the \<open>e\<close> with \<open>2 ^ e \<le> x < 2 ^ (e + 1)\<close>\<close>
  "exponentOf x =
     (if 1 \<le> x then int (bitLength \<lfloor>x\<rfloor>) - 1 else - int (bitLength (\<lceil>1 / x\<rceil> - 1)))"

definition roundHalfEven :: "real \<Rightarrow> int" where
  "roundHalfEven x =
     (let f = \<lfloor>x\<rfloor>
      in if x - of_int f > 1 / 2 \<or> (x - of_int f = 1 / 2 \<and> odd f) then f + 1 else f)"

definition roundToDouble :: "real \<Rightarrow> real" where
  "roundToDouble x =
     (if x = 0 then 0
      else let e = exponentOf \<bar>x\<bar>;
               significand = roundHalfEven (\<bar>x\<bar> * pow2 (52 - e))
           in sgn x * of_int significand * pow2 (e - 52))"

section \<open>The colour functions\<close>

record rgb =
  r :: int
  g :: int
  b :: int

definition toHex :: "int \<Rightarrow> string" where
  \<comment> \<open>\<open>(c) => c.toString(16).padStart(2, '0')\<close>\<close>
  "toHex c = padStart 2 (CHR ''0'') (toString c 16)"

definition rgbToHex :: "rgb \<Rightarrow> string" where
  "rgbToHex c = ''#'' @ toHex (r c) @ toHex (g c) @ toHex (b c)"

definition stripHash :: "string \<Rightarrow> string" where
  \<comment> \<open>\<open>hex.replace(/^#/, '')\<close>\<close>
  "stripHash hex = (case hex of x # xs \<Rightarrow> if x = CHR ''#'' then xs else hex | [] \<Rightarrow> hex)"

definition hexToRGB :: "string \<Rightarrow> rgb" where
  "hexToRGB hex =
     (let trimmedHex = stripHash hex;
          trimmedHex = (if length trimmedHex = 3
                        then concat (map (\<lambda>c. [c, c]) trimmedHex)
                        else trimmedHex);
          bigint = parseInt trimmedHex 16
      in \<lparr> r = drop_bit 16 (toInt32 bigint) AND 255,
           g = drop_bit 8 (toInt32 bigint) AND 255,
           b = toInt32 bigint AND 255 \<rparr>)"

text \<open>
  \<open>rgbToHue\<close> is the formula of the source, each division, subtraction, multiplication
  and addition rounded to a double as the program rounds it; \<open>%\<close> on doubles is exact.
  What is proved about the sort below is proved for an arbitrary hue function and holds for
  this one in particular.
\<close>

definition fmod360 :: "real \<Rightarrow> real" where
  \<comment> \<open>\<open>x % 360\<close>: the remainder has the sign of \<open>x\<close>\<close>
  "fmod360 x = x - 360 * of_int (if x \<ge> 0 then \<lfloor>x / 360\<rfloor> else \<lceil>x / 360\<rceil>)"

definition rgbToHue :: "rgb \<Rightarrow> real" where
  "rgbToHue c =
     (let rr = roundToDouble (of_int (r c) / 255);
          gg = roundToDouble (of_int (g c) / 255);
          bb = roundToDouble (of_int (b c) / 255);
          mx = max (max rr gg) bb; mn = min (min rr gg) bb
      in if mx = mn then 0
         else if mx = rr
         then fmod360 (roundToDouble (roundToDouble (60 *
                roundToDouble (roundToDouble (gg - bb) / roundToDouble (mx - mn))) + 360))
         else if mx = gg
         then fmod360 (roundToDouble (roundToDouble (60 *
                roundToDouble (roundToDouble (bb - rr) / roundToDouble (mx - mn))) + 120))
         else if mx = bb
         then fmod360 (roundToDouble (roundToDouble (60 *
                roundToDouble (roundToDouble (rr - gg) / roundToDouble (mx - mn))) + 240))
         else 0)"

text \<open>
  \<open>Array.prototype.sort\<close> is a stable sort (ECMAScript 2019). For a comparison
  function that orders the elements consistently, as a difference of keys does, the sorted
  list is unique, so it is the list a stable insertion sort builds: taken from the right,
  each element goes in front of the first element it need not follow
  (\<open>compare x y \<le> 0\<close>), ahead of the later elements it compares equal to.
\<close>

fun insertBy :: "('a \<Rightarrow> 'a \<Rightarrow> real) \<Rightarrow> 'a \<Rightarrow> 'a list \<Rightarrow> 'a list" where
  "insertBy compare x [] = [x]"
| "insertBy compare x (y # ys) =
     (if compare x y \<le> 0 then x # y # ys else y # insertBy compare x ys)"

definition sortBy :: "('a \<Rightarrow> 'a \<Rightarrow> real) \<Rightarrow> 'a list \<Rightarrow> 'a list" where
  "sortBy compare xs = foldr (insertBy compare) xs []"

definition sortColorsBy :: "(rgb \<Rightarrow> real) \<Rightarrow> string list \<Rightarrow> string list" where
  "sortColorsBy hue colors =
     map (\<lambda>color. rgbToHex (snd color))
       (sortBy (\<lambda>colorA colorB. hue (snd colorB) - hue (snd colorA))
          (map (\<lambda>hex. (hex, hexToRGB hex)) colors))"

definition sortColorsByBlueToRed :: "string list \<Rightarrow> string list" where
  "sortColorsByBlueToRed colors = sortColorsBy rgbToHue colors"

section \<open>The editor and the toggle action\<close>

text \<open>
  The source file holds two versions of the plugin; the model is of the second, which adds
  the highlight index offset and the colour functions to the first.

  The state the toggle reads and writes is the markdown view of the host: \<open>data\<close> is
  \<open>view.data\<close>, the document text the view holds; the editor buffer is the line under
  the cursor (\<open>line\<close>) between the lines \<open>above\<close> and \<open>below\<close> it; \<open>fromCh\<close> and
  \<open>toCh\<close> are \<open>getCursor('from').ch\<close> and \<open>getCursor('to').ch\<close>. The selection lies
  within the cursor's line, as the data model of the specification assumes. The palette
  (\<open>settings.colors\<close>) and the value the next call of \<open>Math.random()\<close> returns (a
  double in \<open>[0, 1)\<close>) are arguments of the functions that read them.
\<close>

record view =
  data :: string
  above :: "string list"
  line :: string
  below :: "string list"
  fromCh :: nat
  toCh :: nat

fun joinLines :: "string list \<Rightarrow> string" where
  "joinLines [] = []"
| "joinLines [l] = l"
| "joinLines (l # ls) = l @ [CHR 0x0A] @ joinLines ls"

definition getValue :: "view \<Rightarrow> string" where
  "getValue v = joinLines (above v @ [line v] @ below v)"

definition getSelection :: "view \<Rightarrow> string" where
  "getSelection v = slice (line v) (fromCh v) (toCh v)"

definition replaceRange :: "string \<Rightarrow> nat \<Rightarrow> nat \<Rightarrow> view \<Rightarrow> view" where
  \<comment> \<open>on the cursor's line; the editor clips a position behind the end of the line\<close>
  "replaceRange replacement start end' v =
     v\<lparr> line := take (min start (length (line v))) (line v) @ replacement
                   @ drop (min end' (length (line v))) (line v) \<rparr>"

definition replaceSelection :: "string \<Rightarrow> view \<Rightarrow> view" where
  "replaceSelection replacement v = replaceRange replacement (fromCh v) (toCh v) v"

definition getRandomBetween :: "real \<Rightarrow> int \<Rightarrow> int \<Rightarrow> int" where
  \<comment> \<open>\<open>Math.floor(Math.random() * (max - min + 1)) + min\<close>; the product is rounded
      to a double, the sums are of integers and exact\<close>
  "getRandomBetween random mn mx = \<lfloor>roundToDouble (random * of_int (mx - mn + 1))\<rfloor> + mn"

definition countMarkElements :: "view \<Rightarrow> nat" where
  "countMarkElements v = length (matchAll markRegex (data v) 0)"

definition getColorIndexOffset :: "string list \<Rightarrow> real \<Rightarrow> view \<Rightarrow> int" where
  "getColorIndexOffset colors random v =
     (case search indexRegex (getValue v) of
        Some (i, ps) \<Rightarrow>
          if ps ! 4 \<noteq> [] then toInt32 (parseInt (ps ! 4) 10)
          else getRandomBetween random 0 (int (length colors))
      | None \<Rightarrow> getRandomBetween random 0 (int (length colors)))"

definition element :: "string list \<Rightarrow> number \<Rightarrow> string option" where
  \<comment> \<open>\<open>colors[i]\<close>: \<open>undefined\<close> (here \<open>None\<close>) unless \<open>i\<close> is an index of the array\<close>
  "element colors i =
     (case i of
        Num k \<Rightarrow> if 0 \<le> k \<and> k < int (length colors) then Some (colors ! nat k) else None
      | _ \<Rightarrow> None)"

definition interpolate :: "string option \<Rightarrow> string" where
  \<comment> \<open>a value inside a template literal\<close>
  "interpolate x = (case x of Some s \<Rightarrow> s | None \<Rightarrow> ''undefined'')"

definition removeSplit :: "regex \<Rightarrow> string \<Rightarrow> string" where
  \<comment> \<open>\<open>s.replace(re, '')\<close> for a pattern with the \<open>g\<close> flag\<close>
  "removeSplit re s =
     (let ms = matchAll re s 0
      in concat (map (\<lambda>(a, e). slice s a e)
                   (zip (0 # map (\<lambda>(i, ps). i + length (concat ps)) ms)
                        (map fst ms @ [length s]))))"

definition overlapStep ::
  "nat \<Rightarrow> nat \<Rightarrow> bool \<times> (nat \<times> nat) list \<Rightarrow> nat \<times> string list \<Rightarrow> bool \<times> (nat \<times> nat) list" where
  \<comment> \<open>the body of the \<open>while\<close> loop, for one match\<close>
  "overlapStep selectedStart selectedEnd acc m =
     (let markStartIndex = fst m;
          markEndIndex = markStartIndex + length (concat (snd m))
      in if selectedStart < markEndIndex \<and> selectedEnd > markStartIndex
         then (True, snd acc @ [(markStartIndex, markEndIndex)])
         else acc)"

definition scanLine :: "view \<Rightarrow> bool \<times> (nat \<times> nat) list" where
  \<comment> \<open>the \<open>while\<close> loop over the matches of the mark pattern in the cursor's line:
      (\<open>isHighlight\<close>, \<open>marksToRemove\<close>)\<close>
  "scanLine v =
     foldl (overlapStep (fromCh v) (toCh v)) (False, []) (matchAll markRegex (line v) 0)"

definition unmark :: "string \<Rightarrow> view \<Rightarrow> nat \<times> nat \<Rightarrow> view" where
  \<comment> \<open>the body of \<open>marksToRemove.forEach\<close>\<close>
  "unmark lineContent v m =
     (let markContent = slice lineContent (fst m) (snd m);
          unmarkedContent = removeSplit tagRegex markContent
      in replaceRange unmarkedContent (fst m) (snd m) v)"

definition highlightSelectedText :: "string list \<Rightarrow> real \<Rightarrow> view \<Rightarrow> view" where
  "highlightSelectedText colors random v =
     (let selectedText = getSelection v in
      if selectedText = [] then v
      else
        let lineContent = line v;
            (isHighlight, marksToRemove) = scanLine v
        in if isHighlight then foldl (unmark lineContent) v marksToRemove
           else
             let markCount = countMarkElements v;
                 indexOffset = getColorIndexOffset colors random v;
                 colorIndex = add (Num indexOffset) (remainder markCount (length colors));
                 highlightColor = element colors colorIndex
             in if markCount = 0
                then replaceSelection
                       (''<mark highlightindex=\"'' @ toString indexOffset 10
                        @ ''\" style=\"background-color: '' @ interpolate highlightColor
                        @ '';\">'' @ selectedText @ ''</mark>'') v
                else replaceSelection
                       (''<mark style=\"background-color: '' @ interpolate highlightColor
                        @ '';\">'' @ selectedText @ ''</mark>'') v)"

text \<open>
  The mark spans of a line, as half-open ranges (start, end) of character offsets: what
  the scanner of the specification reports, read off the same matches.
\<close>

definition markSpans :: "string \<Rightarrow> (nat \<times> nat) list" where
  "markSpans l = map (\<lambda>m. (fst m, fst m + length (concat (snd m)))) (matchAll markRegex l 0)"

text \<open>
  What a pattern accepts, atom by atom: \<open>conforms a p\<close> holds when the text \<open>p\<close> is
  one the atom \<open>a\<close> can consume. A text matches a pattern when it splits into pieces that
  conform to the atoms in order.
\<close>

fun conforms :: "atom \<Rightarrow> string \<Rightarrow> bool" where
  "conforms (Lit l) p = (p = l)"
| "conforms (Opt c) p = (length p \<le> 1 \<and> list_all (inClass c) p)"
| "conforms (Star c) p = list_all (inClass c) p"
| "conforms (Plus c) p = (p \<noteq> [] \<and> list_all (inClass c) p)"
| "conforms (LazyStar c) p = list_all (inClass c) p"

text \<open>
  The colour strings of the specification: a valid colour is three or six hexadecimal
  digits behind an optional \<open>#\<close>, and its canonical form is \<open>#\<close> and six lower-case
  digits, a three-digit colour having each digit doubled.
\<close>

definition isHexDigit :: "char \<Rightarrow> bool" where
  "isHexDigit c = (c \<in> set ''0123456789abcdefABCDEF'')"

definition validHex :: "string \<Rightarrow> bool" where
  "validHex hex =
     ((length (stripHash hex) = 3 \<or> length (stripHash hex) = 6)
      \<and> list_all isHexDigit (stripHash hex))"

definition lowerCase :: "char \<Rightarrow> char" where
  "lowerCase c =
     (if (65::nat) \<le> of_char c \<and> (of_char c :: nat) \<le> 90 then char_of (of_char c + (32::nat)) else c)"

definition canonicalHex :: "string \<Rightarrow> string" where
  "canonicalHex hex =
     ''#'' @ map lowerCase
              (if length (stripHash hex) = 3
               then concat (map (\<lambda>c. [c, c]) (stripHash hex))
               else stripHash hex)"

definition hexValue :: "char \<Rightarrow> int" where
  "hexValue c = (case digitValue c of Some d \<Rightarrow> d | None \<Rightarrow> 0)"

text \<open>The integer a string of decimal digits denotes.\<close>

definition decimal :: "string \<Rightarrow> int" where
  "decimal ds = foldl (\<lambda>a c. a * 10 + (of_char c - 48)) 0 ds"

section \<open>The matcher finds what the patterns describe\<close>

lemma consPiece_Some:
  "consPiece x m = Some qs \<longleftrightarrow> (\<exists>p ps. m = Some (p # ps) \<and> qs = (x # p) # ps)"
  by (cases "(x, m)" rule: consPiece.cases) auto

lemma matchHere_sound:
  "matchHere re s = Some ps \<Longrightarrow> list_all2 conforms re ps \<and> take (length (concat ps)) s = concat ps"
proof (induction re s arbitrary: ps rule: matchHere.induct)
  case (2 l re s)
  from "2.prems" obtain ps' where l: "take (length l) s = l" and m: "matchHere re (drop (length l) s) = Some ps'"
    and ps: "ps = l # ps'"
    by (auto split: if_splits)
  from "2.IH" [OF l m] have "list_all2 conforms re ps'" and "take (length (concat ps')) (drop (length l) s) = concat ps'"
    by simp_all
  with l ps show ?case
    by (simp add: take_add)
qed (auto split: if_splits option.splits simp: consPiece_Some)

lemma search_sound:
  "search re s = Some (i, ps) \<Longrightarrow>
     list_all2 conforms re ps \<and> i \<le> length s \<and> take (length (concat ps)) (drop i s) = concat ps"
proof (induction s arbitrary: i)
  case Nil
  then show ?case using matchHere_sound [of re "[]" ps] by auto
next
  case (Cons x xs)
  show ?case
  proof (cases "matchHere re (x # xs)")
    case None
    with Cons.prems obtain j where "search re xs = Some (j, ps)" "i = Suc j"
      by auto
    with Cons.IH [of j] show ?thesis by simp
  next
    case (Some qs)
    with Cons.prems have "i = 0" "qs = ps" by auto
    with Some matchHere_sound [of re "x # xs" ps] show ?thesis by simp
  qed
qed

lemma matchHere_nonempty: "matchHere (a # re) s \<noteq> Some []"
  by (cases a; cases s) (auto simp: consPiece_Some split: option.splits if_splits)

lemma star_complete:
  assumes "list_all (inClass c) p" and "matchHere re t \<noteq> None"
  shows "matchHere (Star c # re) (p @ t) \<noteq> None"
  using assms(1)
proof (induction p)
  case Nil
  with assms(2) show ?case
    by (cases t) (auto split: option.splits)
next
  case (Cons x p)
  then obtain q qs where "matchHere (Star c # re) (p @ t) = Some (q # qs)"
    using matchHere_nonempty [of "Star c" re "p @ t"]
    by (cases "matchHere (Star c # re) (p @ t)") (auto simp: neq_Nil_conv)
  with Cons.prems show ?case
    by simp
qed

lemma lazy_complete:
  assumes "list_all (inClass c) p" and "matchHere re t \<noteq> None"
  shows "matchHere (LazyStar c # re) (p @ t) \<noteq> None"
  using assms(1)
proof (induction p)
  case Nil
  with assms(2) show ?case
    by (cases t) auto
next
  case (Cons x p)
  then obtain q qs where "matchHere (LazyStar c # re) (p @ t) = Some (q # qs)"
    using matchHere_nonempty [of "LazyStar c" re "p @ t"]
    by (cases "matchHere (LazyStar c # re) (p @ t)") (auto simp: neq_Nil_conv)
  with Cons.prems show ?case
    by (simp split: option.splits)
qed

lemma matchHere_complete:
  "list_all2 conforms re ps \<Longrightarrow> matchHere re (concat ps @ t) \<noteq> None"
proof (induction re arbitrary: ps)
  case Nil
  then show ?case by simp
next
  case (Cons a re)
  then obtain p ps' where ps: "ps = p # ps'" and p: "conforms a p" and rest: "list_all2 conforms re ps'"
    by (auto simp: list_all2_Cons1)
  from Cons.IH [OF rest] have tail: "matchHere re (concat ps' @ t) \<noteq> None" .
  show ?case
  proof (cases a)
    case (Lit l)
    with p ps tail show ?thesis by auto
  next
    case (Opt c)
    define u where "u = concat ps' @ t"
    with tail have u: "matchHere re u \<noteq> None" by simp
    from Opt p have "p = [] \<or> (\<exists>x. p = [x] \<and> inClass c x)"
      by (cases p) auto
    then have "matchHere (Opt c # re) (p @ u) \<noteq> None"
    proof
      assume "p = []"
      with u show ?thesis by (cases u) (auto split: option.splits)
    next
      assume "\<exists>x. p = [x] \<and> inClass c x"
      with u show ?thesis by (auto split: option.splits)
    qed
    with Opt ps show ?thesis by (simp add: u_def)
  next
    case (Star c)
    with p ps star_complete [OF _ tail, of c p] show ?thesis by simp
  next
    case (Plus c)
    with p obtain x p' where p': "p = x # p'" "inClass c x" "list_all (inClass c) p'"
      by (cases p) auto
    from star_complete [OF p'(3) tail] obtain q qs
      where "matchHere (Star c # re) (p' @ concat ps' @ t) = Some (q # qs)"
      using matchHere_nonempty [of "Star c" re "p' @ concat ps' @ t"]
      by (cases "matchHere (Star c # re) (p' @ concat ps' @ t)") (auto simp: neq_Nil_conv)
    with Plus ps p' show ?thesis
      by simp
  next
    case (LazyStar c)
    with p ps lazy_complete [OF _ tail, of c p] show ?thesis by simp
  qed
qed

lemma patterns_consume:
  assumes "matchHere re s = Some ps" and "re \<in> {markRegex, tagRegex, indexRegex}"
  shows "concat ps \<noteq> []"
  using matchHere_sound [OF assms(1)] assms(2)
  by (auto simp: markRegex_def tagRegex_def indexRegex_def list_all2_Cons1)

lemma search_complete:
  "matchHere re t \<noteq> None \<Longrightarrow> search re (pre @ t) \<noteq> None"
proof (induction pre)
  case Nil
  then show ?case by (cases t) auto
next
  case (Cons x pre)
  then show ?case by (auto split: option.splits)
qed

section \<open>Reading the highlight index\<close>

lemma digit_not_space: "isDigitOf radix c \<Longrightarrow> \<not> isWhiteSpace c"
  by (auto simp: isDigitOf_def digitValue_def isWhiteSpace_def Let_def split: if_splits)

lemma digit_not_sign: "isDigitOf radix c \<Longrightarrow> c \<noteq> CHR ''+'' \<and> c \<noteq> CHR ''-''"
  by (auto simp: isDigitOf_def digitValue_def Let_def split: if_splits)

lemma digit_not_x: "isDigitOf radix c \<Longrightarrow> radix \<le> 16 \<Longrightarrow> c \<noteq> CHR ''x'' \<and> c \<noteq> CHR ''X''"
  by (auto simp: isDigitOf_def digitValue_def Let_def split: if_splits)

lemma parseInt_digits:
  assumes "Z \<noteq> []" and "list_all (isDigitOf radix) Z" and "radix \<le> 16"
  shows "parseInt Z radix =
           toDouble (foldl (\<lambda>a c. case digitValue c of Some d \<Rightarrow> a * radix + d | None \<Rightarrow> a) 0 Z)"
proof -
  from assms(1) obtain c cs where Z: "Z = c # cs" by (cases Z) auto
  with assms(2) have c: "isDigitOf radix c" and cs: "list_all (isDigitOf radix) cs" by simp_all
  have 1: "dropWhile isWhiteSpace Z = Z"
    using Z digit_not_space [OF c] by simp
  have 2: "take 1 Z \<noteq> ''+''" "take 1 Z \<noteq> ''-''"
    using Z digit_not_sign [OF c] by simp_all
  have 3: "take 2 Z \<noteq> ''0x''" "take 2 Z \<noteq> ''0X''"
  proof -
    show "take 2 Z \<noteq> ''0x''"
    proof (cases cs)
      case Nil with Z show ?thesis by simp
    next
      case (Cons y ys)
      with cs have "isDigitOf radix y" by simp
      from digit_not_x [OF this assms(3)] Z Cons show ?thesis by simp
    qed
    show "take 2 Z \<noteq> ''0X''"
    proof (cases cs)
      case Nil with Z show ?thesis by simp
    next
      case (Cons y ys)
      with cs have "isDigitOf radix y" by simp
      from digit_not_x [OF this assms(3)] Z Cons show ?thesis by simp
    qed
  qed
  have 4: "takeWhile (isDigitOf radix) Z = Z"
    using assms(2) by (simp add: takeWhile_eq_all_conv list_all_iff)
  show ?thesis
    by (simp only: parseInt_def Let_def 1 2 3 4 assms(1) if_False simp_thms)
qed

lemma decimal_digit: "inClass Digit c \<Longrightarrow> isDigitOf 10 c \<and> digitValue c = Some (of_char c - 48)"
  by (simp add: isDigitOf_def digitValue_def Let_def)

lemma decimal_fold:
  "list_all (inClass Digit) ds \<Longrightarrow>
     foldl (\<lambda>a c. case digitValue c of Some d \<Rightarrow> a * 10 + d | None \<Rightarrow> a) n ds
       = foldl (\<lambda>a c. a * 10 + (of_char c - 48)) n ds"
  by (induction ds arbitrary: n) (simp_all add: decimal_digit)

lemma decimal_fold_nonneg:
  "list_all (inClass Digit) ds \<Longrightarrow> 0 \<le> n \<Longrightarrow> (0::int) \<le> foldl (\<lambda>a c. a * 10 + (of_char c - 48)) n ds"
  by (induction ds arbitrary: n) simp_all

lemma decimal_nonneg: "list_all (inClass Digit) ds \<Longrightarrow> 0 \<le> decimal ds"
  by (simp add: decimal_def decimal_fold_nonneg)

lemma parseInt_decimal:
  assumes "ds \<noteq> []" and "list_all (inClass Digit) ds"
  shows "parseInt ds 10 = toDouble (decimal ds)"
proof -
  from assms(2) have "list_all (isDigitOf 10) ds"
    by (induction ds) (simp_all add: decimal_digit)
  from parseInt_digits [OF assms(1) this] assms(2) show ?thesis
    by (simp add: decimal_fold decimal_def)
qed

lemma toInt32_small: "0 \<le> n \<Longrightarrow> n < 2 ^ 31 \<Longrightarrow> toInt32 (toDouble n) = n"
  by (simp add: toInt32_def toDouble_def Let_def)

lemma index_group:
  assumes "list_all2 conforms indexRegex ps"
  shows "ps ! 4 \<noteq> [] \<and> list_all (inClass Digit) (ps ! 4)"
  using assms by (auto simp: indexRegex_def list_all2_Cons1)

lemma offset_of_match:
  assumes "search indexRegex (getValue v) = Some (i, ps)"
  shows "getColorIndexOffset colors random v = toInt32 (toDouble (decimal (ps ! 4)))"
proof -
  from search_sound [OF assms] have "list_all2 conforms indexRegex ps" by simp
  from index_group [OF this] assms show ?thesis
    by (simp add: getColorIndexOffset_def parseInt_decimal)
qed

lemma tagged_found:
  assumes "list_all2 conforms indexRegex ps" and "doc = pre @ concat ps @ post"
  shows "search indexRegex doc \<noteq> None"
  using search_complete [OF matchHere_complete [OF assms(1), of post], of pre] assms(2) by simp

section \<open>Removing a highlight\<close>

lemma overlap_loop:
  "foldl (overlapStep a e) (h, acc) ms =
     (h \<or> filter (\<lambda>(s, t). a < t \<and> e > s)
             (map (\<lambda>m. (fst m, fst m + length (concat (snd m)))) ms) \<noteq> [],
      acc @ filter (\<lambda>(s, t). a < t \<and> e > s)
              (map (\<lambda>m. (fst m, fst m + length (concat (snd m)))) ms))"
  by (induction ms arbitrary: h acc) (simp_all add: overlapStep_def Let_def)

lemma example_line_matches:
  "matchAll markRegex ''a<mark style=\"x\">hi</mark>b'' 0 =
     [(1, [''<mark'', '' style=\"x\"'', ''>'', ''hi'', ''</mark>''])]"
  by code_simp

lemma example_mark_stripped: "removeSplit tagRegex ''<mark style=\"x\">hi</mark>'' = ''hi''"
  by code_simp

lemma touching_line_matches:
  "matchAll markRegex ''ab<mark>c</mark>'' 0 = [(2, [''<mark'', [], ''>'', ''c'', ''</mark>''])]"
  by code_simp

text \<open>
  A line with one mark: text without \<open><\<close>, an opening tag, inner text without \<open><\<close>
  and line breaks, the closing tag, text without \<open><\<close>. The scan finds exactly this
  mark, the tag pattern strips exactly its two tags, and a toggle whose selection overlaps
  the mark leaves the text before, the inner text and the text after.
\<close>

lemma lit_fails:
  assumes "s = [] \<or> hd s \<noteq> x"
  shows "matchHere (Lit (x # w) # re) s = None"
  using assms by (cases s) auto

lemma search_none:
  assumes "x \<notin> set s"
  shows "search (Lit (x # w) # re) s = None"
  using assms
proof (induction s)
  case Nil
  show ?case by simp
next
  case (Cons y s)
  then have "matchHere (Lit (x # w) # re) (y # s) = None"
    by (intro lit_fails) auto
  with Cons show ?case by (simp del: matchHere.simps)
qed

lemma search_skip:
  assumes "x \<notin> set pre"
  shows "search (Lit (x # w) # re) (pre @ s) =
           map_option (\<lambda>(i, ps). (length pre + i, ps)) (search (Lit (x # w) # re) s)"
  using assms
proof (induction pre)
  case Nil
  show ?case by (simp add: option.map_ident split_def)
next
  case (Cons y pre)
  then have "matchHere (Lit (x # w) # re) (y # pre @ s) = None"
    by (intro lit_fails) auto
  with Cons show ?case
    by (simp add: option.map_comp comp_def split_def del: matchHere.simps)
qed

lemma star_exact:
  assumes "list_all (inClass c) p" and "\<not> inClass c x" and "matchHere re (x # t) = Some ps"
  shows "matchHere (Star c # re) (p @ x # t) = Some (p # ps)"
  using assms(1) by (induction p) (simp_all add: assms(2,3))

lemma lazy_exact:
  assumes "list_all (inClass c) p" and "x \<notin> set p"
    and "matchHere (Lit (x # w) # re) t = Some ps"
  shows "matchHere (LazyStar c # Lit (x # w) # re) (p @ t) = Some (p # ps)"
  using assms(1,2)
proof (induction p)
  case Nil
  with assms(3) show ?case by (cases t) (simp_all del: matchHere.simps(2))
next
  case (Cons y p)
  then have "matchHere (Lit (x # w) # re) (y # p @ t) = None"
    by (intro lit_fails) auto
  with Cons show ?case by (simp del: matchHere.simps(2))
qed

lemma mark_matched:
  assumes "CHR ''>'' \<notin> set attrs" and "CHR ''<'' \<notin> set inner"
    and "CHR 0x0A \<notin> set inner" and "CHR 0x0D \<notin> set inner"
  shows "matchHere markRegex (''<mark'' @ attrs @ ''>'' @ inner @ ''</mark>'' @ post)
           = Some [''<mark'', attrs, ''>'', inner, ''</mark>'']"
proof -
  have close: "matchHere [Lit ''</mark>''] (''</mark>'' @ post) = Some [''</mark>'']"
    by simp
  have dots: "list_all (inClass (NoneOf [CHR 0x0A, CHR 0x0D])) inner"
    using assms(3,4) by (auto simp: list_all_iff)
  have body: "matchHere [LazyStar (NoneOf [CHR 0x0A, CHR 0x0D]), Lit ''</mark>'']
                (inner @ ''</mark>'' @ post) = Some [inner, ''</mark>'']"
    using lazy_exact [OF dots assms(2), of "''/mark>''" "[]" "''</mark>'' @ post" "[''</mark>'']"] close
    by (simp del: matchHere.simps)
  then have gt: "matchHere [Lit ''>'', LazyStar (NoneOf [CHR 0x0A, CHR 0x0D]), Lit ''</mark>'']
                (CHR ''>'' # inner @ ''</mark>'' @ post) = Some [''>'', inner, ''</mark>'']"
    by (simp del: matchHere.simps(9,10))
  have attrs: "list_all (inClass (NoneOf ''>'')) attrs"
    using assms(1) by (auto simp: list_all_iff)
  have "matchHere [Star (NoneOf ''>''), Lit ''>'', LazyStar (NoneOf [CHR 0x0A, CHR 0x0D]), Lit ''</mark>'']
          (attrs @ CHR ''>'' # inner @ ''</mark>'' @ post) = Some [attrs, ''>'', inner, ''</mark>'']"
    by (rule star_exact [OF attrs _ gt]) simp
  then show ?thesis
    by (simp add: markRegex_def del: matchHere.simps(5-10))
qed


lemma line_marks:
  assumes "CHR ''<'' \<notin> set pre" and "CHR ''<'' \<notin> set post"
    and "CHR ''>'' \<notin> set attrs" and "CHR ''<'' \<notin> set inner"
    and "CHR 0x0A \<notin> set inner" and "CHR 0x0D \<notin> set inner"
  shows "matchAll markRegex (pre @ ''<mark'' @ attrs @ ''>'' @ inner @ ''</mark>'' @ post) 0
           = [(length pre, [''<mark'', attrs, ''>'', inner, ''</mark>''])]"
proof -
  define M where "M = ''<mark'' @ attrs @ ''>'' @ inner @ ''</mark>''"
  have here: "matchHere markRegex (M @ post) = Some [''<mark'', attrs, ''>'', inner, ''</mark>'']"
    using mark_matched [OF assms(3-6), of post] by (simp add: M_def)
  have M: "M \<noteq> []" "length M = length (concat [''<mark'', attrs, ''>'', inner, ''</mark>''])"
    by (simp_all add: M_def)
  have "search markRegex (M @ post) = Some (0, [''<mark'', attrs, ''>'', inner, ''</mark>''])"
    using here M(1) by (cases "M @ post") (simp_all del: matchHere.simps)
  then have found: "search markRegex (pre @ M @ post)
                      = Some (length pre, [''<mark'', attrs, ''>'', inner, ''</mark>''])"
    using search_skip [OF assms(1), of "''mark''" "tl markRegex" "M @ post"]
    by (simp add: markRegex_def)
  have rest: "search markRegex post = None"
    using search_none [OF assms(2), of "''mark''" "tl markRegex"] by (simp add: markRegex_def)
  have tail: "matchAll markRegex post i = []" for i
    by (subst matchAll.simps) (simp add: rest)
  have big: "max (Suc 0) (length M) = length M"
    using M(1) by (cases M) simp_all
  have "matchAll markRegex (pre @ M @ post) 0
          = [(length pre, [''<mark'', attrs, ''>'', inner, ''</mark>''])]"
    by (subst matchAll.simps) (simp add: found M(2) [symmetric] M(1) big tail del: concat.simps)
  then show ?thesis by (simp add: M_def)
qed


lemma open_tag_matched:
  assumes "CHR ''>'' \<notin> set attrs"
  shows "matchHere tagRegex (''<mark'' @ attrs @ ''>'' @ t) = Some [''<'', [], ''mark'', attrs, ''>'']"
proof -
  have attrs: "list_all (inClass (NoneOf ''>'')) attrs"
    using assms by (auto simp: list_all_iff)
  have "matchHere [Star (NoneOf ''>''), Lit ''>''] (attrs @ CHR ''>'' # t) = Some [attrs, ''>'']"
    by (rule star_exact [OF attrs]) simp_all
  then show ?thesis
    by (simp add: tagRegex_def del: matchHere.simps(5,6))
qed

lemma close_tag_matched:
  "matchHere tagRegex (''</mark>'' @ t) = Some [''<'', ''/'', ''mark'', [], ''>'']"
  by (simp add: tagRegex_def)

lemma mark_stripped:
  assumes "CHR ''>'' \<notin> set attrs" and "CHR ''<'' \<notin> set inner"
  shows "removeSplit tagRegex (''<mark'' @ attrs @ ''>'' @ inner @ ''</mark>'') = inner"
proof -
  define A where "A = ''<mark'' @ attrs @ ''>''"
  have A: "A \<noteq> []" "length A = length (concat [''<'', [], ''mark'', attrs, ''>''])"
    "max (Suc 0) (length A) = length A"
    by (simp_all add: A_def)
  have first: "search tagRegex (A @ inner @ ''</mark>'') = Some (0, [''<'', [], ''mark'', attrs, ''>''])"
    using open_tag_matched [OF assms(1), of "inner @ ''</mark>''"] A(1)
    by (cases "A @ inner @ ''</mark>''") (simp_all add: A_def del: matchHere.simps)
  have "search tagRegex ''</mark>'' = Some (0, [''<'', ''/'', ''mark'', [], ''>''])"
    using close_tag_matched [of "[]"] by (simp del: matchHere.simps)
  then have second: "search tagRegex (inner @ ''</mark>'')
                       = Some (length inner, [''<'', ''/'', ''mark'', [], ''>''])"
    using search_skip [OF assms(2), of "[]" "tl tagRegex" "''</mark>''"]
    by (simp add: tagRegex_def)
  have last: "matchAll tagRegex [] i = []" for i
    by (subst matchAll.simps) (simp add: tagRegex_def)
  have two: "matchAll tagRegex (inner @ ''</mark>'') i
               = [(i + length inner, [''<'', ''/'', ''mark'', [], ''>''])]" for i
    by (subst matchAll.simps) (simp add: second last)
  have all: "matchAll tagRegex (A @ inner @ ''</mark>'') 0
               = [(0, [''<'', [], ''mark'', attrs, ''>'']),
                  (length A + length inner, [''<'', ''/'', ''mark'', [], ''>''])]"
    by (subst matchAll.simps) (simp add: first A(2) [symmetric] A(1,3) two del: concat.simps)
  have "removeSplit tagRegex (A @ inner @ ''</mark>'') = inner"
    by (simp add: removeSplit_def all slice_def A(2) [symmetric] del: concat.simps) simp
  then show ?thesis by (simp add: A_def)
qed


lemma single_mark_removed:
  assumes "line v = pre @ ''<mark'' @ attrs @ ''>'' @ inner @ ''</mark>'' @ post"
    and "CHR ''<'' \<notin> set pre" and "CHR ''<'' \<notin> set post"
    and "CHR ''>'' \<notin> set attrs" and "CHR ''<'' \<notin> set inner"
    and "CHR 0x0A \<notin> set inner" and "CHR 0x0D \<notin> set inner"
    and "getSelection v \<noteq> []"
    and "fromCh v < length pre + length (''<mark'' @ attrs @ ''>'' @ inner @ ''</mark>'')"
    and "toCh v > length pre"
  shows "line (highlightSelectedText colors random v) = pre @ inner @ post"
proof -
  define M where "M = ''<mark'' @ attrs @ ''>'' @ inner @ ''</mark>''"
  have l: "line v = pre @ M @ post"
    using assms(1) by (simp add: M_def)
  have len: "length M = length (concat [''<mark'', attrs, ''>'', inner, ''</mark>''])"
    by (simp add: M_def)
  have marks: "matchAll markRegex (line v) 0
                 = [(length pre, [''<mark'', attrs, ''>'', inner, ''</mark>''])]"
    unfolding assms(1) by (rule line_marks [OF assms(2-7)])
  have overlap: "fromCh v < length pre + length M"
    using assms(9) by (simp add: M_def)
  have scan: "scanLine v = (True, [(length pre, length pre + length M)])"
    by (simp add: scanLine_def overlapStep_def Let_def marks len [symmetric] overlap assms(10)
        del: concat.simps)
  have content: "slice (pre @ M @ post) (length pre) (length pre + length M) = M"
    by (simp add: slice_def)
  have stripped: "removeSplit tagRegex M = inner"
    unfolding M_def by (rule mark_stripped [OF assms(4,5)])
  show ?thesis
    using assms(8)
    by (simp add: highlightSelectedText_def scan unmark_def content stripped replaceRange_def l)
qed

text \<open>
  The example line of the specification, \<open>a<mark style="x">hi</mark>b\<close>, is such a
  line: its mark is the span from offset 1 to offset 26, and a toggle whose non-empty
  selection lies inside that span leaves the line \<open>ahib\<close>, whatever the palette, the
  random value, the rest of the document and \<open>view.data\<close> are.
\<close>

lemma removal_strips_mark_tags:
  assumes "1 \<le> f" and "f < t" and "t \<le> 26"
  shows "line (highlightSelectedText colors random
                 \<lparr>data = d, above = up, line = ''a<mark style=\"x\">hi</mark>b'', below = down,
                   fromCh = f, toCh = t\<rparr>) = ''ahib''"
proof -
  let ?v = "\<lparr>data = d, above = up, line = ''a<mark style=\"x\">hi</mark>b'', below = down,
             fromCh = f, toCh = t\<rparr>"
  have selected: "getSelection ?v \<noteq> []"
    using assms by (simp add: getSelection_def slice_def)
  have scan: "scanLine ?v = (True, [(1, 26)])"
    using assms by (simp add: scanLine_def example_line_matches overlapStep_def)
  have content: "slice ''a<mark style=\"x\">hi</mark>b'' (Suc 0) 26 = ''<mark style=\"x\">hi</mark>''"
    by (simp add: slice_def)
  show ?thesis
    using selected
    by (simp add: highlightSelectedText_def scan unmark_def content example_mark_stripped
        replaceRange_def)
qed

lemma removal_strips_mark_tags_example:
  "(1::nat) \<le> 17 \<and> (17::nat) < 19 \<and> (19::nat) \<le> 26
   \<and> line (highlightSelectedText [''#0000ff''] 0
              \<lparr>data = ''a<mark style=\"x\">hi</mark>b'', above = [],
                line = ''a<mark style=\"x\">hi</mark>b'', below = [], fromCh = 17, toCh = 19\<rparr>)
       = ''ahib''"
  using removal_strips_mark_tags [of 17 19 "[''#0000ff'']" 0 "''a<mark style=\"x\">hi</mark>b''" "[]" "[]"]
  by simp

text \<open>
  The tag pattern removes every tag of the slice whose name begins with \<open>mark\<close>, so an
  inner text that holds such a tag is not kept as it is.
\<close>

lemma inner_tag_stripped_example:
  "line (highlightSelectedText [''#0000ff''] 0
           \<lparr>data = ''x<mark>a<marker>b</mark>y'', above = [],
             line = ''x<mark>a<marker>b</mark>y'', below = [], fromCh = 7, toCh = 8\<rparr>)
     = ''xaby''"
  by code_simp

text \<open>
  Claim C5 says that a removal strips exactly the opening and the closing tag of every
  overlapping span and keeps the inner text, as on the line
  \<open>a<mark style="x">hi</mark>b\<close>, which becomes \<open>ahib\<close>. That line has one span, and
  for it the claim holds (lemma \<open>removal_strips_mark_tags\<close>). With two spans under one
  selection it does not: the spans are unwrapped one after the other, each
  \<open>replaceRange\<close> using the offsets read before the first edit. On the line
  \<open><mark>a</mark><mark>b</mark> and a long tail of text\<close> with the selection from 7
  to 21 the spans are (0, 14) and (14, 28); the first edit shortens the line by 13
  characters, and the second then overwrites offsets 14 to 28 of the shortened line. The
  result keeps the second opening tag, cuts its closing tag and loses six characters of
  the text behind it, where the claim gives \<open>ab and a long tail of text\<close>.
\<close>

theorem removal_of_two_spans_example:
  "scanLine \<lparr>data = ''<mark>a</mark><mark>b</mark> and a long tail of text'', above = [],
              line = ''<mark>a</mark><mark>b</mark> and a long tail of text'', below = [],
              fromCh = 7, toCh = 21\<rparr> = (True, [(0, 14), (14, 28)])
   \<and> line (highlightSelectedText [''#0000ff''] 0
              \<lparr>data = ''<mark>a</mark><mark>b</mark> and a long tail of text'', above = [],
                line = ''<mark>a</mark><mark>b</mark> and a long tail of text'', below = [],
                fromCh = 7, toCh = 21\<rparr>)
       = ''a<mark>b</markbail of text''"
  by code_simp

text \<open>
  Claim C6. The loop over the mark spans of the cursor's line keeps exactly the spans
  (markStart, markEnd) with \<open>selectedStart < markEnd\<close> and \<open>selectedEnd > markStart\<close>, in
  order, and sets \<open>isHighlight\<close> exactly when it keeps one. A selection that only touches
  a span is not kept: on the line \<open>ab<mark>c</mark>\<close>, whose mark is the span (2, 16),
  the selection (0, 2) gives no span to remove, and the toggle inserts a new mark around
  \<open>ab\<close> instead of removing the one behind it.
\<close>

theorem overlap_classification:
  "scanLine v =
     (filter (\<lambda>(s, e). fromCh v < e \<and> toCh v > s) (markSpans (line v)) \<noteq> [],
      filter (\<lambda>(s, e). fromCh v < e \<and> toCh v > s) (markSpans (line v)))
   \<and> markSpans ''ab<mark>c</mark>'' = [(2, 16)]
   \<and> scanLine \<lparr>data = ''ab<mark>c</mark>'', above = [], line = ''ab<mark>c</mark>'', below = [],
                 fromCh = 0, toCh = 2\<rparr> = (False, [])
   \<and> line (highlightSelectedText [''#ff0000''] 0
              \<lparr>data = ''ab<mark>c</mark>'', above = [], line = ''ab<mark>c</mark>'', below = [],
                fromCh = 0, toCh = 2\<rparr>)
       = ''<mark style=\"background-color: #ff0000;\">ab</mark><mark>c</mark>''"
proof -
  have kept: "scanLine v =
     (filter (\<lambda>(s, e). fromCh v < e \<and> toCh v > s) (markSpans (line v)) \<noteq> [],
      filter (\<lambda>(s, e). fromCh v < e \<and> toCh v > s) (markSpans (line v)))"
    by (simp add: scanLine_def markSpans_def overlap_loop)
  have spans: "markSpans ''ab<mark>c</mark>'' = [(2, 16)]"
    by (simp add: markSpans_def touching_line_matches)
  have touching: "scanLine \<lparr>data = ''ab<mark>c</mark>'', above = [], line = ''ab<mark>c</mark>'',
                    below = [], fromCh = 0, toCh = 2\<rparr> = (False, [])"
    by (simp add: scanLine_def touching_line_matches overlapStep_def)
  have inserted: "line (highlightSelectedText [''#ff0000''] 0
              \<lparr>data = ''ab<mark>c</mark>'', above = [], line = ''ab<mark>c</mark>'', below = [],
                fromCh = 0, toCh = 2\<rparr>)
       = ''<mark style=\"background-color: #ff0000;\">ab</mark><mark>c</mark>''"
    by code_simp
  from kept spans touching inserted show ?thesis by blast
qed

section \<open>Inserting a highlight\<close>

lemma insertion_path:
  assumes "getSelection v \<noteq> []" and "\<not> fst (scanLine v)"
  shows "highlightSelectedText colors random v =
     (if countMarkElements v = 0
      then replaceSelection
             (''<mark highlightindex=\"'' @ toString (getColorIndexOffset colors random v) 10
              @ ''\" style=\"background-color: ''
              @ interpolate (element colors (add (Num (getColorIndexOffset colors random v))
                                              (remainder (countMarkElements v) (length colors))))
              @ '';\">'' @ getSelection v @ ''</mark>'') v
      else replaceSelection
             (''<mark style=\"background-color: ''
              @ interpolate (element colors (add (Num (getColorIndexOffset colors random v))
                                              (remainder (countMarkElements v) (length colors))))
              @ '';\">'' @ getSelection v @ ''</mark>'') v)"
  using assms by (cases "scanLine v") (simp add: highlightSelectedText_def Let_def)

lemma replaceSelection_longer:
  assumes "getSelection v \<noteq> []" and "length (getSelection v) < length t"
  shows "length (line v) < length (line (replaceSelection t v))"
  using assms
  by (auto simp: getSelection_def slice_def replaceSelection_def replaceRange_def min_def
      split: if_splits)

text \<open>
  Claim C1 says that the colour of an inserted mark is the palette element at index
  \<open>(offset + markCount) mod paletteLength\<close>, always inside the palette. The source
  computes \<open>indexOffset + markCount % colors.length\<close>, where \<open>%\<close> binds tighter than
  \<open>+\<close>. With the three-colour palette, one mark in the document and the offset 2 stored in
  it, the claim's index is \<open>(2 + 1) mod 3 = 0\<close>; the program reads \<open>colors[3]\<close>, which is
  \<open>undefined\<close>, and writes that word into the style.
\<close>

theorem color_index_not_reduced_example:
  "countMarkElements
     \<lparr>data = ''<mark highlightindex=\"2\" style=\"background-color: #ff0000;\">a</mark> bc'',
       above = [],
       line = ''<mark highlightindex=\"2\" style=\"background-color: #ff0000;\">a</mark> bc'',
       below = [], fromCh = 69, toCh = 71\<rparr> = 1
   \<and> getColorIndexOffset [''#0000ff'', ''#00ff00'', ''#ff0000''] 0
     \<lparr>data = ''<mark highlightindex=\"2\" style=\"background-color: #ff0000;\">a</mark> bc'',
       above = [],
       line = ''<mark highlightindex=\"2\" style=\"background-color: #ff0000;\">a</mark> bc'',
       below = [], fromCh = 69, toCh = 71\<rparr> = 2
   \<and> line (highlightSelectedText [''#0000ff'', ''#00ff00'', ''#ff0000''] 0
     \<lparr>data = ''<mark highlightindex=\"2\" style=\"background-color: #ff0000;\">a</mark> bc'',
       above = [],
       line = ''<mark highlightindex=\"2\" style=\"background-color: #ff0000;\">a</mark> bc'',
       below = [], fromCh = 69, toCh = 71\<rparr>)
     = ''<mark highlightindex=\"2\" style=\"background-color: #ff0000;\">a</mark> <mark style=\"background-color: undefined;\">bc</mark>''"
  by code_simp

text \<open>
  Claim C3 says that the offset drawn for the first highlight of a document lies in
  \<open>[0, n)\<close> for a palette of \<open>n\<close> colours. The source draws
  \<open>getRandomBetween(0, colors.length)\<close>, whose upper end is included. With three colours
  and \<open>Math.random()\<close> returning 0.75 the offset is 3: it is embedded as
  \<open>highlightindex="3"\<close>, and the colour read at index 3 is \<open>undefined\<close>.
\<close>

theorem random_offset_reaches_palette_length_example:
  "getRandomBetween (3 / 4) 0 3 = 3
   \<and> line (highlightSelectedText [''#0000ff'', ''#00ff00'', ''#ff0000''] (3 / 4)
             \<lparr>data = ''hello'', above = [], line = ''hello'', below = [], fromCh = 0, toCh = 5\<rparr>)
       = ''<mark highlightindex=\"3\" style=\"background-color: undefined;\">hello</mark>''"
  by code_simp

text \<open>
  Claim C2 says that with an empty palette the insertion path applies no edit and reports
  \<open>NoColorsConfigured\<close>. The toggle has no such guard and no way to report an error:
  on the document \<open>hello\<close>, all of it selected, it replaces the selection by a mark
  whose colour is the word \<open>undefined\<close>.
\<close>

theorem empty_palette_edit_example:
  "line (highlightSelectedText [] (1 / 2)
             \<lparr>data = ''hello'', above = [], line = ''hello'', below = [], fromCh = 0, toCh = 5\<rparr>)
       = ''<mark highlightindex=\"0\" style=\"background-color: undefined;\">hello</mark>''"
  by code_simp

text \<open>
  Claim C2, amended. Whenever the toggle reaches the insertion path (a non-empty selection
  and no overlapping mark on the line) with an empty palette, it returns normally and
  replaces the selection by a mark around the selected text whose colour is the word
  \<open>undefined\<close>; the mark carries a \<open>highlightindex\<close> attribute exactly when the
  document holds no mark yet. The line is changed by this edit.
\<close>

theorem empty_palette_inserts_undefined:
  assumes "getSelection v \<noteq> []" and "\<not> fst (scanLine v)"
  shows "highlightSelectedText [] random v =
           replaceSelection
             ((if countMarkElements v = 0
               then ''<mark highlightindex=\"'' @ toString (getColorIndexOffset [] random v) 10
                    @ ''\" style=\"background-color: undefined;\">''
               else ''<mark style=\"background-color: undefined;\">'')
              @ getSelection v @ ''</mark>'') v
         \<and> line (highlightSelectedText [] random v) \<noteq> line v"
proof -
  have built: "highlightSelectedText [] random v =
           replaceSelection
             ((if countMarkElements v = 0
               then ''<mark highlightindex=\"'' @ toString (getColorIndexOffset [] random v) 10
                    @ ''\" style=\"background-color: undefined;\">''
               else ''<mark style=\"background-color: undefined;\">'')
              @ getSelection v @ ''</mark>'') v"
    by (simp add: insertion_path [OF assms] remainder_def element_def interpolate_def)
  have "length (line v) < length (line (highlightSelectedText [] random v))"
    unfolding built by (rule replaceSelection_longer [OF assms(1)]) simp
  with built show ?thesis by auto
qed


theorem empty_palette_inserts_undefined_witness:
  "getSelection \<lparr>data = ''hello'', above = [], line = ''hello'', below = [], fromCh = 0, toCh = 5\<rparr> \<noteq> []
   \<and> \<not> fst (scanLine \<lparr>data = ''hello'', above = [], line = ''hello'', below = [], fromCh = 0, toCh = 5\<rparr>)
   \<and> highlightSelectedText [] (1 / 2) \<lparr>data = ''hello'', above = [], line = ''hello'', below = [], fromCh = 0, toCh = 5\<rparr> =
       replaceSelection
         ((if countMarkElements \<lparr>data = ''hello'', above = [], line = ''hello'', below = [], fromCh = 0, toCh = 5\<rparr> = 0
           then ''<mark highlightindex=\"''
                @ toString (getColorIndexOffset [] (1 / 2) \<lparr>data = ''hello'', above = [], line = ''hello'', below = [], fromCh = 0, toCh = 5\<rparr>) 10
                @ ''\" style=\"background-color: undefined;\">''
           else ''<mark style=\"background-color: undefined;\">'')
          @ getSelection \<lparr>data = ''hello'', above = [], line = ''hello'', below = [], fromCh = 0, toCh = 5\<rparr> @ ''</mark>'')
         \<lparr>data = ''hello'', above = [], line = ''hello'', below = [], fromCh = 0, toCh = 5\<rparr>
   \<and> line (highlightSelectedText [] (1 / 2) \<lparr>data = ''hello'', above = [], line = ''hello'', below = [], fromCh = 0, toCh = 5\<rparr>)
       \<noteq> line \<lparr>data = ''hello'', above = [], line = ''hello'', below = [], fromCh = 0, toCh = 5\<rparr>"
proof -
  have selected: "getSelection \<lparr>data = ''hello'', above = [], line = ''hello'', below = [], fromCh = 0, toCh = 5\<rparr> \<noteq> []"
    by code_simp
  have insertion: "\<not> fst (scanLine \<lparr>data = ''hello'', above = [], line = ''hello'', below = [], fromCh = 0, toCh = 5\<rparr>)"
    by code_simp
  from empty_palette_inserts_undefined [OF selected insertion, of "1 / 2"] selected insertion
  show ?thesis by blast
qed

text \<open>
  Claim C4 says that for every insertion into a document that already holds a mark, the
  offset is the integer value of the \<open>highlightindex\<close> attribute of the first tagged mark.
  Two documents show where this fails. The first holds one mark without the attribute: the
  index pattern finds nothing, the offset is drawn at random, and the colour of the new mark
  changes with the random value. The second holds a mark tagged \<open>4294967298\<close>: the
  program reduces the value to a signed 32-bit integer and uses the offset 2.
\<close>

theorem offset_without_tagged_mark_example:
  "countMarkElements
     \<lparr>data = ''<mark style=\"background-color: #ff0000;\">a</mark> bc'', above = [],
       line = ''<mark style=\"background-color: #ff0000;\">a</mark> bc'', below = [],
       fromCh = 50, toCh = 52\<rparr> = 1
   \<and> search indexRegex (getValue
     \<lparr>data = ''<mark style=\"background-color: #ff0000;\">a</mark> bc'', above = [],
       line = ''<mark style=\"background-color: #ff0000;\">a</mark> bc'', below = [],
       fromCh = 50, toCh = 52\<rparr>) = None
   \<and> line (highlightSelectedText [''#0000ff'', ''#00ff00'', ''#ff0000''] 0
     \<lparr>data = ''<mark style=\"background-color: #ff0000;\">a</mark> bc'', above = [],
       line = ''<mark style=\"background-color: #ff0000;\">a</mark> bc'', below = [],
       fromCh = 50, toCh = 52\<rparr>)
     = ''<mark style=\"background-color: #ff0000;\">a</mark> <mark style=\"background-color: #00ff00;\">bc</mark>''
   \<and> line (highlightSelectedText [''#0000ff'', ''#00ff00'', ''#ff0000''] (1 / 4)
     \<lparr>data = ''<mark style=\"background-color: #ff0000;\">a</mark> bc'', above = [],
       line = ''<mark style=\"background-color: #ff0000;\">a</mark> bc'', below = [],
       fromCh = 50, toCh = 52\<rparr>)
     = ''<mark style=\"background-color: #ff0000;\">a</mark> <mark style=\"background-color: #ff0000;\">bc</mark>''
   \<and> countMarkElements
     \<lparr>data = ''<mark highlightindex=\"4294967298\">a</mark> bc'', above = [],
       line = ''<mark highlightindex=\"4294967298\">a</mark> bc'', below = [],
       fromCh = 43, toCh = 45\<rparr> = 1
   \<and> getColorIndexOffset [''#0000ff'', ''#00ff00'', ''#ff0000''] 0
     \<lparr>data = ''<mark highlightindex=\"4294967298\">a</mark> bc'', above = [],
       line = ''<mark highlightindex=\"4294967298\">a</mark> bc'', below = [],
       fromCh = 43, toCh = 45\<rparr> = 2"
  by code_simp

text \<open>
  Claim C4, amended. For every insertion into a document whose mark count is greater than
  0, the inserted mark is \<open><mark style="background-color: ...;">\<close> around the selected
  text and carries no \<open>highlightindex\<close> attribute; its colour is the palette element at
  the offset plus \<open>markCount % paletteLength\<close>, or the word \<open>undefined\<close> when that is
  no index of the palette. Whenever the index pattern matches the document text and the
  digits captured by its first match (\<open>ps ! 4\<close>) have a value below \<open>2 ^ 31\<close>, the
  offset used is the integer value of those digits.
\<close>

theorem offset_from_first_tagged_mark:
  assumes "getSelection v \<noteq> []" and "\<not> fst (scanLine v)" and "0 < countMarkElements v"
  shows "highlightSelectedText colors random v =
           replaceSelection
             (''<mark style=\"background-color: ''
              @ interpolate (element colors (add (Num (getColorIndexOffset colors random v))
                                              (remainder (countMarkElements v) (length colors))))
              @ '';\">'' @ getSelection v @ ''</mark>'') v
         \<and> (search indexRegex (getValue v) = Some (i, ps) \<and> decimal (ps ! 4) < 2 ^ 31
              \<longrightarrow> getColorIndexOffset colors random v = decimal (ps ! 4))"
proof -
  have inserted: "highlightSelectedText colors random v =
           replaceSelection
             (''<mark style=\"background-color: ''
              @ interpolate (element colors (add (Num (getColorIndexOffset colors random v))
                                              (remainder (countMarkElements v) (length colors))))
              @ '';\">'' @ getSelection v @ ''</mark>'') v"
    using assms(3) by (simp add: insertion_path [OF assms(1,2)])
  have "getColorIndexOffset colors random v = decimal (ps ! 4)"
    if found: "search indexRegex (getValue v) = Some (i, ps)" and small: "decimal (ps ! 4) < 2 ^ 31"
  proof -
    from search_sound [OF found] have "list_all2 conforms indexRegex ps" by simp
    from index_group [OF this] have "0 \<le> decimal (ps ! 4)" by (simp add: decimal_nonneg)
    with small show ?thesis
      by (simp add: offset_of_match [OF found] toInt32_small)
  qed
  with inserted show ?thesis by blast
qed

theorem offset_from_first_tagged_mark_witness:
  "getSelection \<lparr>data = ''<mark highlightindex=\"2\" style=\"background-color: #ff0000;\">a</mark> bc'',
       above = [],
       line = ''<mark highlightindex=\"2\" style=\"background-color: #ff0000;\">a</mark> bc'',
       below = [], fromCh = 69, toCh = 71\<rparr> \<noteq> []
   \<and> \<not> fst (scanLine \<lparr>data = ''<mark highlightindex=\"2\" style=\"background-color: #ff0000;\">a</mark> bc'',
       above = [],
       line = ''<mark highlightindex=\"2\" style=\"background-color: #ff0000;\">a</mark> bc'',
       below = [], fromCh = 69, toCh = 71\<rparr>)
   \<and> 0 < countMarkElements \<lparr>data = ''<mark highlightindex=\"2\" style=\"background-color: #ff0000;\">a</mark> bc'',
       above = [],
       line = ''<mark highlightindex=\"2\" style=\"background-color: #ff0000;\">a</mark> bc'',
       below = [], fromCh = 69, toCh = 71\<rparr>
   \<and> search indexRegex (getValue \<lparr>data = ''<mark highlightindex=\"2\" style=\"background-color: #ff0000;\">a</mark> bc'',
       above = [],
       line = ''<mark highlightindex=\"2\" style=\"background-color: #ff0000;\">a</mark> bc'',
       below = [], fromCh = 69, toCh = 71\<rparr>)
       = Some (0, [''<mark'', '' '', ''highlightindex='', [CHR 0x22], ''2'', [CHR 0x22],
        '' style=\"background-color: #ff0000;\"'', ''>''])
   \<and> decimal ([''<mark'', '' '', ''highlightindex='', [CHR 0x22], ''2'', [CHR 0x22],
        '' style=\"background-color: #ff0000;\"'', ''>''] ! 4) < 2 ^ 31
   \<and> getColorIndexOffset [''#0000ff'', ''#00ff00'', ''#ff0000''] 0 \<lparr>data = ''<mark highlightindex=\"2\" style=\"background-color: #ff0000;\">a</mark> bc'',
       above = [],
       line = ''<mark highlightindex=\"2\" style=\"background-color: #ff0000;\">a</mark> bc'',
       below = [], fromCh = 69, toCh = 71\<rparr>
       = decimal ([''<mark'', '' '', ''highlightindex='', [CHR 0x22], ''2'', [CHR 0x22],
        '' style=\"background-color: #ff0000;\"'', ''>''] ! 4)
   \<and> highlightSelectedText [''#0000ff'', ''#00ff00'', ''#ff0000''] 0 \<lparr>data = ''<mark highlightindex=\"2\" style=\"background-color: #ff0000;\">a</mark> bc'',
       above = [],
       line = ''<mark highlightindex=\"2\" style=\"background-color: #ff0000;\">a</mark> bc'',
       below = [], fromCh = 69, toCh = 71\<rparr> =
         replaceSelection
           (''<mark style=\"background-color: ''
            @ interpolate (element [''#0000ff'', ''#00ff00'', ''#ff0000'']
                (add (Num (getColorIndexOffset [''#0000ff'', ''#00ff00'', ''#ff0000''] 0 \<lparr>data = ''<mark highlightindex=\"2\" style=\"background-color: #ff0000;\">a</mark> bc'',
       above = [],
       line = ''<mark highlightindex=\"2\" style=\"background-color: #ff0000;\">a</mark> bc'',
       below = [], fromCh = 69, toCh = 71\<rparr>))
                   (remainder (countMarkElements \<lparr>data = ''<mark highlightindex=\"2\" style=\"background-color: #ff0000;\">a</mark> bc'',
       above = [],
       line = ''<mark highlightindex=\"2\" style=\"background-color: #ff0000;\">a</mark> bc'',
       below = [], fromCh = 69, toCh = 71\<rparr>)
                      (length [''#0000ff'', ''#00ff00'', ''#ff0000'']))))
            @ '';\">'' @ getSelection \<lparr>data = ''<mark highlightindex=\"2\" style=\"background-color: #ff0000;\">a</mark> bc'',
       above = [],
       line = ''<mark highlightindex=\"2\" style=\"background-color: #ff0000;\">a</mark> bc'',
       below = [], fromCh = 69, toCh = 71\<rparr> @ ''</mark>'')
           \<lparr>data = ''<mark highlightindex=\"2\" style=\"background-color: #ff0000;\">a</mark> bc'',
       above = [],
       line = ''<mark highlightindex=\"2\" style=\"background-color: #ff0000;\">a</mark> bc'',
       below = [], fromCh = 69, toCh = 71\<rparr>"
proof -
  have selected: "getSelection \<lparr>data = ''<mark highlightindex=\"2\" style=\"background-color: #ff0000;\">a</mark> bc'',
       above = [],
       line = ''<mark highlightindex=\"2\" style=\"background-color: #ff0000;\">a</mark> bc'',
       below = [], fromCh = 69, toCh = 71\<rparr> \<noteq> []"
    by code_simp
  have insertion: "\<not> fst (scanLine \<lparr>data = ''<mark highlightindex=\"2\" style=\"background-color: #ff0000;\">a</mark> bc'',
       above = [],
       line = ''<mark highlightindex=\"2\" style=\"background-color: #ff0000;\">a</mark> bc'',
       below = [], fromCh = 69, toCh = 71\<rparr>)"
    by code_simp
  have counted: "0 < countMarkElements \<lparr>data = ''<mark highlightindex=\"2\" style=\"background-color: #ff0000;\">a</mark> bc'',
       above = [],
       line = ''<mark highlightindex=\"2\" style=\"background-color: #ff0000;\">a</mark> bc'',
       below = [], fromCh = 69, toCh = 71\<rparr>"
    by code_simp
  have found: "search indexRegex (getValue \<lparr>data = ''<mark highlightindex=\"2\" style=\"background-color: #ff0000;\">a</mark> bc'',
       above = [],
       line = ''<mark highlightindex=\"2\" style=\"background-color: #ff0000;\">a</mark> bc'',
       below = [], fromCh = 69, toCh = 71\<rparr>)
       = Some (0, [''<mark'', '' '', ''highlightindex='', [CHR 0x22], ''2'', [CHR 0x22],
        '' style=\"background-color: #ff0000;\"'', ''>''])"
    by code_simp
  have small: "decimal ([''<mark'', '' '', ''highlightindex='', [CHR 0x22], ''2'', [CHR 0x22],
        '' style=\"background-color: #ff0000;\"'', ''>''] ! 4) < 2 ^ 31"
    by (simp add: decimal_def)
  from offset_from_first_tagged_mark [OF selected insertion counted,
      of "[''#0000ff'', ''#00ff00'', ''#ff0000'']" 0 0 "[''<mark'', '' '', ''highlightindex='', [CHR 0x22], ''2'', [CHR 0x22],
        '' style=\"background-color: #ff0000;\"'', ''>'']"]
    selected insertion counted found small
  show ?thesis by blast
qed

text \<open>
  Claim C10. When the text of the document contains a mark tag that carries a
  \<open>highlightindex\<close> attribute, that is, a text that splits into pieces conforming to the
  index pattern, the toggle does not depend on the random source: for any palette, line and
  selection, two runs with different random values return the same view, whichever path
  (no-op, removal or insertion) is taken.
\<close>

theorem toggle_deterministic_with_tagged_mark:
  assumes "list_all2 conforms indexRegex ps" and "getValue v = pre @ concat ps @ post"
  shows "highlightSelectedText colors random1 v = highlightSelectedText colors random2 v"
proof -
  from tagged_found [OF assms] obtain i qs where "search indexRegex (getValue v) = Some (i, qs)"
    by auto
  then have same: "getColorIndexOffset colors random1 v = getColorIndexOffset colors random2 v"
    by (simp add: offset_of_match)
  show ?thesis
    by (simp only: highlightSelectedText_def same)
qed

theorem toggle_deterministic_with_tagged_mark_witness:
  "list_all2 conforms indexRegex
     [''<mark'', '' '', ''highlightindex='', [CHR 0x22], ''2'', [CHR 0x22],
      '' style=\"background-color: #ff0000;\"'', ''>'']
   \<and> getValue \<lparr>data = ''<mark highlightindex=\"2\" style=\"background-color: #ff0000;\">a</mark> bc'',
                 above = [],
                 line = ''<mark highlightindex=\"2\" style=\"background-color: #ff0000;\">a</mark> bc'',
                 below = [], fromCh = 69, toCh = 71\<rparr>
       = [] @ concat [''<mark'', '' '', ''highlightindex='', [CHR 0x22], ''2'', [CHR 0x22],
                      '' style=\"background-color: #ff0000;\"'', ''>''] @ ''a</mark> bc''
   \<and> highlightSelectedText [''#0000ff'', ''#00ff00'', ''#ff0000''] 0
         \<lparr>data = ''<mark highlightindex=\"2\" style=\"background-color: #ff0000;\">a</mark> bc'',
           above = [],
           line = ''<mark highlightindex=\"2\" style=\"background-color: #ff0000;\">a</mark> bc'',
           below = [], fromCh = 69, toCh = 71\<rparr>
       = highlightSelectedText [''#0000ff'', ''#00ff00'', ''#ff0000''] (1 / 2)
         \<lparr>data = ''<mark highlightindex=\"2\" style=\"background-color: #ff0000;\">a</mark> bc'',
           above = [],
           line = ''<mark highlightindex=\"2\" style=\"background-color: #ff0000;\">a</mark> bc'',
           below = [], fromCh = 69, toCh = 71\<rparr>"
  using toggle_deterministic_with_tagged_mark
    [where ps = "[''<mark'', '' '', ''highlightindex='', [CHR 0x22], ''2'', [CHR 0x22],
                  '' style=\"background-color: #ff0000;\"'', ''>'']"
       and v = "\<lparr>data = ''<mark highlightindex=\"2\" style=\"background-color: #ff0000;\">a</mark> bc'',
                 above = [],
                 line = ''<mark highlightindex=\"2\" style=\"background-color: #ff0000;\">a</mark> bc'',
                 below = [], fromCh = 69, toCh = 71\<rparr>"
       and pre = "[]" and post = "''a</mark> bc''"
       and colors = "[''#0000ff'', ''#00ff00'', ''#ff0000'']" and ?random1.0 = 0 and ?random2.0 = "1 / 2"]
  by (simp add: indexRegex_def getValue_def)

section \<open>Colours\<close>

lemma lower_case_codes:
  "char_of (97::nat) = CHR ''a''" "char_of (98::nat) = CHR ''b''" "char_of (99::nat) = CHR ''c''"
  "char_of (100::nat) = CHR ''d''" "char_of (101::nat) = CHR ''e''" "char_of (102::nat) = CHR ''f''"
  by (simp_all add: char_of_eq_iff)

lemma hexDigit_value:
  "isHexDigit c \<Longrightarrow>
     isDigitOf 16 c \<and> digitValue c = Some (hexValue c) \<and> 0 \<le> hexValue c \<and> hexValue c < 16
     \<and> digitChar (hexValue c) = lowerCase c \<and> c \<noteq> CHR ''#''"
  by (auto simp: isHexDigit_def isDigitOf_def digitValue_def hexValue_def digitChar_def
      lowerCase_def lower_case_codes)

lemma and_255: "(x::int) AND 255 = x mod 256"
proof -
  have "x AND mask 8 = take_bit 8 x" by (simp add: take_bit_eq_mask)
  then show ?thesis by (simp add: take_bit_eq_mod mask_eq_exp_minus_1)
qed

lemma byte_div_mod:
  fixes A B :: int
  assumes "0 \<le> B" and "B < 256"
  shows "(A * 256 + B) div 256 = A" and "(A * 256 + B) mod 256 = B"
  using assms by simp_all

lemma channels:
  fixes d1 d2 d3 d4 d5 d6 :: int
  assumes "0 \<le> d1" "d1 < 16" "0 \<le> d2" "d2 < 16" "0 \<le> d3" "d3 < 16"
    "0 \<le> d4" "d4 < 16" "0 \<le> d5" "d5 < 16" "0 \<le> d6" "d6 < 16"
  defines "n \<equiv> ((((d1 * 16 + d2) * 16 + d3) * 16 + d4) * 16 + d5) * 16 + d6"
  shows "toInt32 (toDouble n) = n"
    and "drop_bit 16 n AND 255 = d1 * 16 + d2"
    and "drop_bit 8 n AND 255 = d3 * 16 + d4"
    and "n AND 255 = d5 * 16 + d6"
proof -
  define A where "A = d1 * 16 + d2"
  define B where "B = d3 * 16 + d4"
  define C where "C = d5 * 16 + d6"
  have bounds: "0 \<le> A" "A < 256" "0 \<le> B" "B < 256" "0 \<le> C" "C < 256"
    using assms by (simp_all add: A_def B_def C_def)
  have n: "n = (A * 256 + B) * 256 + C"
    by (simp add: n_def A_def B_def C_def algebra_simps)
  have "0 \<le> n" "n < 2 ^ 24"
    using assms by (simp_all add: n_def)
  then show "toInt32 (toDouble n) = n"
    by (simp add: toInt32_small)
  have low: "n mod 256 = C" and high: "n div 256 = A * 256 + B"
    unfolding n using bounds by (simp_all only: byte_div_mod)
  have "n div 65536 = (n div 256) div 256"
    by (simp add: div_mult2_eq [symmetric])
  with high bounds have top: "n div 65536 = A"
    by (simp only: byte_div_mod)
  from top bounds show "drop_bit 16 n AND 255 = d1 * 16 + d2"
    by (simp add: and_255 drop_bit_eq_div A_def)
  from high bounds byte_div_mod(2) [of B A] show "drop_bit 8 n AND 255 = d3 * 16 + d4"
    by (simp add: and_255 drop_bit_eq_div B_def)
  from low show "n AND 255 = d5 * 16 + d6"
    by (simp add: and_255 C_def)
qed

lemma toHex_pair:
  assumes "0 \<le> a" "a < 16" "0 \<le> d" "d < 16"
  shows "toHex (a * 16 + d) = [digitChar a, digitChar d]"
proof (cases "a = 0")
  case True
  with assms show ?thesis
    by (simp add: toHex_def toString_def padStart_def digitsOf.simps [of 16 d] digitChar_def)
next
  case False
  with assms have big: "\<not> a * 16 + d < 16" and q: "(a * 16 + d) div 16 = a" and m: "(a * 16 + d) mod 16 = d"
    by simp_all
  from assms big show ?thesis
    by (simp add: toHex_def toString_def padStart_def digitsOf.simps [of 16 "a * 16 + d"]
        digitsOf.simps [of 16 a] q m)
qed


lemma rgb_of_six:
  assumes "list_all isHexDigit [c1, c2, c3, c4, c5, c6]"
  shows "\<lparr> r = drop_bit 16 (toInt32 (parseInt [c1, c2, c3, c4, c5, c6] 16)) AND 255,
           g = drop_bit 8 (toInt32 (parseInt [c1, c2, c3, c4, c5, c6] 16)) AND 255,
           b = toInt32 (parseInt [c1, c2, c3, c4, c5, c6] 16) AND 255 \<rparr>
         = \<lparr> r = hexValue c1 * 16 + hexValue c2,
             g = hexValue c3 * 16 + hexValue c4,
             b = hexValue c5 * 16 + hexValue c6 \<rparr>"
proof -
  from assms have d: "isHexDigit c1" "isHexDigit c2" "isHexDigit c3" "isHexDigit c4"
    "isHexDigit c5" "isHexDigit c6"
    by simp_all
  have "list_all (isDigitOf 16) [c1, c2, c3, c4, c5, c6]"
    using d by (simp add: hexDigit_value)
  from parseInt_digits [OF _ this]
  have parsed: "parseInt [c1, c2, c3, c4, c5, c6] 16 =
      toDouble (((((hexValue c1 * 16 + hexValue c2) * 16 + hexValue c3) * 16 + hexValue c4) * 16
                 + hexValue c5) * 16 + hexValue c6)"
    using d by (simp add: hexDigit_value)
  have bounds: "0 \<le> hexValue c1" "hexValue c1 < 16" "0 \<le> hexValue c2" "hexValue c2 < 16"
    "0 \<le> hexValue c3" "hexValue c3 < 16" "0 \<le> hexValue c4" "hexValue c4 < 16"
    "0 \<le> hexValue c5" "hexValue c5 < 16" "0 \<le> hexValue c6" "hexValue c6 < 16"
    using d by (simp_all add: hexDigit_value)
  show ?thesis
    unfolding parsed by (simp only: channels [OF bounds])
qed

text \<open>
  Claim C7. For every valid colour string (three or six hexadecimal digits of either
  case, behind an optional \<open>#\<close>), \<open>hexToRGB\<close> followed by \<open>rgbToHex\<close> yields the
  canonical form: \<open>#\<close> and six lower-case digits, the digits of a three-digit colour
  doubled.
\<close>

theorem hex_round_trip_canonical:
  assumes "validHex hex"
  shows "rgbToHex (hexToRGB hex) = canonicalHex hex"
proof -
  define t where "t = (if length (stripHash hex) = 3
                       then concat (map (\<lambda>c. [c, c]) (stripHash hex)) else stripHash hex)"
  from assms have "length (stripHash hex) = 3 \<or> length (stripHash hex) = 6"
    and digits: "list_all isHexDigit (stripHash hex)"
    by (simp_all add: validHex_def)
  then have "\<exists>c1 c2 c3 c4 c5 c6. t = [c1, c2, c3, c4, c5, c6]"
    by (auto simp: t_def length_Suc_conv eval_nat_numeral)
  then obtain c1 c2 c3 c4 c5 c6 where t: "t = [c1, c2, c3, c4, c5, c6]"
    by blast
  from digits have "list_all isHexDigit t"
    by (auto simp: t_def list_all_iff)
  with t have d: "list_all isHexDigit [c1, c2, c3, c4, c5, c6]"
    by simp
  have "hexToRGB hex = \<lparr> r = hexValue c1 * 16 + hexValue c2,
             g = hexValue c3 * 16 + hexValue c4,
             b = hexValue c5 * 16 + hexValue c6 \<rparr>"
    unfolding hexToRGB_def Let_def t_def [symmetric] t by (rule rgb_of_six [OF d])
  moreover have "canonicalHex hex = ''#'' @ map lowerCase t"
    by (simp add: canonicalHex_def t_def)
  ultimately show ?thesis
    using d by (simp add: rgbToHex_def t toHex_pair hexDigit_value)
qed


theorem hex_round_trip_canonical_witness:
  "validHex ''#fA3'' \<and> rgbToHex (hexToRGB ''#fA3'') = ''#ffaa33''"
  using hex_round_trip_canonical [of "''#fA3''"]
  by (simp add: validHex_def canonicalHex_def stripHash_def isHexDigit_def lowerCase_def
      lower_case_codes)

lemma byte_range: "0 \<le> (x::int) AND 255 \<and> x AND 255 \<le> 255"
proof -
  have "0 \<le> x mod 256" and "x mod 256 < 256" by simp_all
  then show ?thesis unfolding and_255 by linarith
qed

lemma hexToRGB_channels:
  "0 \<le> r (hexToRGB hex) \<and> r (hexToRGB hex) \<le> 255
   \<and> 0 \<le> g (hexToRGB hex) \<and> g (hexToRGB hex) \<le> 255
   \<and> 0 \<le> b (hexToRGB hex) \<and> b (hexToRGB hex) \<le> 255"
  by (simp add: hexToRGB_def Let_def byte_range)

lemma digitChar_value:
  assumes "0 \<le> d" and "d < 16"
  shows "isHexDigit (digitChar d) \<and> hexValue (digitChar d) = d"
proof -
  from assms have "d = 0 \<or> d = 1 \<or> d = 2 \<or> d = 3 \<or> d = 4 \<or> d = 5 \<or> d = 6 \<or> d = 7 \<or> d = 8
      \<or> d = 9 \<or> d = 10 \<or> d = 11 \<or> d = 12 \<or> d = 13 \<or> d = 14 \<or> d = 15"
    by arith
  then show ?thesis
    by (auto simp: digitChar_def isHexDigit_def hexValue_def digitValue_def)
qed

lemma rgb_round_trip:
  assumes "0 \<le> r c" "r c \<le> 255" "0 \<le> g c" "g c \<le> 255" "0 \<le> b c" "b c \<le> 255"
  shows "hexToRGB (rgbToHex c) = c"
proof -
  define r1 r2 g1 g2 b1 b2 where "r1 = r c div 16" and "r2 = r c mod 16" and "g1 = g c div 16"
    and "g2 = g c mod 16" and "b1 = b c div 16" and "b2 = b c mod 16"
  have bounds: "0 \<le> r1" "r1 < 16" "0 \<le> r2" "r2 < 16" "0 \<le> g1" "g1 < 16" "0 \<le> g2" "g2 < 16"
    "0 \<le> b1" "b1 < 16" "0 \<le> b2" "b2 < 16"
    using assms by (simp_all add: r1_def r2_def g1_def g2_def b1_def b2_def)
  have parts: "r c = r1 * 16 + r2" "g c = g1 * 16 + g2" "b c = b1 * 16 + b2"
    by (simp_all add: r1_def r2_def g1_def g2_def b1_def b2_def)
  have hex: "rgbToHex c = [CHR ''#'', digitChar r1, digitChar r2, digitChar g1, digitChar g2,
      digitChar b1, digitChar b2]"
    using bounds by (simp add: rgbToHex_def parts toHex_pair)
  have digits: "list_all isHexDigit [digitChar r1, digitChar r2, digitChar g1, digitChar g2,
      digitChar b1, digitChar b2]"
    using bounds by (simp add: digitChar_value)
  have "hexToRGB (rgbToHex c) = \<lparr> r = r1 * 16 + r2, g = g1 * 16 + g2, b = b1 * 16 + b2 \<rparr>"
    unfolding hex hexToRGB_def Let_def using bounds
    by (simp add: stripHash_def rgb_of_six [OF digits] digitChar_value)
  with parts show ?thesis by simp
qed

lemma insertBy_insort:
  "insertBy (\<lambda>x y. k y - k x) x ys = insort_key (\<lambda>x. - k x) x ys" for k :: "'a \<Rightarrow> real"
  by (induction ys) simp_all

lemma sortBy_sort_key:
  "sortBy (\<lambda>x y. k y - k x) xs = sort_key (\<lambda>x. - k x) xs" for k :: "'a \<Rightarrow> real"
  by (induction xs) (simp_all add: sortBy_def sort_key_def insertBy_insort)

lemma sortColorsBy_sort_key:
  "sortColorsBy hue colors =
     map (\<lambda>p. rgbToHex (snd p))
       (sort_key (\<lambda>p. - hue (snd p)) (map (\<lambda>hex. (hex, hexToRGB hex)) colors))"
  by (simp add: sortColorsBy_def sortBy_sort_key [of "\<lambda>p. hue (snd p)"])

text \<open>
  Claim C9 says that \<open>hexToRGB\<close> fails with \<open>InvalidColorFormat\<close> on a string that is
  not a three- or six-digit colour. The function validates nothing and cannot fail:
  \<open>zzz\<close> has no hexadecimal digit, \<open>parseInt\<close> gives \<open>NaN\<close>, the bitwise operators
  read it as 0, and the result is black; \<open>12345\<close> has five digits and is read as the
  number \<open>0x12345\<close>.
\<close>

theorem invalid_hex_returns_rgb_example:
  "\<not> validHex ''zzz'' \<and> hexToRGB ''zzz'' = \<lparr>r = 0, g = 0, b = 0\<rparr>
   \<and> \<not> validHex ''12345'' \<and> hexToRGB ''12345'' = \<lparr>r = 1, g = 35, b = 69\<rparr>"
  by code_simp

text \<open>
  Claim C9, amended. \<open>hexToRGB\<close> never fails: for every input string, valid colour or
  not, it returns an \<open>{r, g, b}\<close> value, and each channel is an integer from 0 to 255.
\<close>

theorem hexToRGB_total_in_range:
  "0 \<le> r (hexToRGB hex) \<and> r (hexToRGB hex) \<le> 255
   \<and> 0 \<le> g (hexToRGB hex) \<and> g (hexToRGB hex) \<le> 255
   \<and> 0 \<le> b (hexToRGB hex) \<and> b (hexToRGB hex) \<le> 255"
  by (rule hexToRGB_channels)

lemma sortColorsBy_properties:
  "sortColorsBy hue (sortColorsBy hue colors) = sortColorsBy hue colors
   \<and> filter (\<lambda>c. hue (hexToRGB c) = h) (sortColorsBy hue colors)
       = map (\<lambda>c. rgbToHex (hexToRGB c)) (filter (\<lambda>c. hue (hexToRGB c) = h) colors)
   \<and> sorted (map (\<lambda>c. - hue (hexToRGB c)) (sortColorsBy hue colors))"
proof -
  define key where "key = (\<lambda>p :: string \<times> rgb. - hue (snd p))"
  define L where "L = map (\<lambda>hex. (hex, hexToRGB hex)) colors"
  define S where "S = sort_key key L"
  have out: "sortColorsBy hue colors = map (\<lambda>p. rgbToHex (snd p)) S"
    by (simp add: sortColorsBy_sort_key S_def L_def key_def)
  have valid: "hexToRGB (rgbToHex (snd p)) = snd p" if "p \<in> set S" for p
  proof -
    from that have "p \<in> set L" by (simp add: S_def)
    then obtain hex where "snd p = hexToRGB hex" by (auto simp: L_def)
    with hexToRGB_channels [of hex] show ?thesis by (simp add: rgb_round_trip)
  qed
  have again: "map (\<lambda>hex. (hex, hexToRGB hex)) (map (\<lambda>p. rgbToHex (snd p)) S)
                 = map (\<lambda>p. (rgbToHex (snd p), snd p)) S"
    using valid by simp
  have same_keys: "map key (map (\<lambda>p. (rgbToHex (snd p), snd p)) S) = map key S"
    by (simp add: key_def comp_def)
  have "sorted (map key S)"
    unfolding S_def by (rule sorted_sort_key)
  then have "sorted (map key (map (\<lambda>p. (rgbToHex (snd p), snd p)) S))"
    by (simp only: same_keys)
  then have fixed: "sort_key key (map (\<lambda>p. (rgbToHex (snd p), snd p)) S)
                      = map (\<lambda>p. (rgbToHex (snd p), snd p)) S"
    by (rule sort_key_id_if_sorted)
  have "sortColorsBy hue (map (\<lambda>p. rgbToHex (snd p)) S)
          = map (\<lambda>p. rgbToHex (snd p))
              (sort_key key (map (\<lambda>hex. (hex, hexToRGB hex)) (map (\<lambda>p. rgbToHex (snd p)) S)))"
    by (simp only: sortColorsBy_sort_key key_def)
  also have "\<dots> = map (\<lambda>p. rgbToHex (snd p)) (sort_key key (map (\<lambda>p. (rgbToHex (snd p), snd p)) S))"
    by (simp only: again)
  also have "\<dots> = map (\<lambda>p. rgbToHex (snd p)) (map (\<lambda>p. (rgbToHex (snd p), snd p)) S)"
    by (simp only: fixed)
  also have "\<dots> = map (\<lambda>p. rgbToHex (snd p)) S"
    by simp
  finally have idem: "sortColorsBy hue (sortColorsBy hue colors) = sortColorsBy hue colors"
    by (simp only: out)
  have "filter (\<lambda>c. hue (hexToRGB c) = h) (map (\<lambda>p. rgbToHex (snd p)) S)
          = map (\<lambda>p. rgbToHex (snd p)) (filter (\<lambda>p. hue (snd p) = h) S)"
    using valid by (simp add: filter_map comp_def cong: filter_cong)
  also have "filter (\<lambda>p. hue (snd p) = h) S = filter (\<lambda>p. key p = - h) S"
    by (simp add: key_def)
  also have "\<dots> = filter (\<lambda>p. key p = - h) L"
    unfolding S_def by (rule sort_key_stable)
  also have "map (\<lambda>p. rgbToHex (snd p)) \<dots>
      = map (\<lambda>c. rgbToHex (hexToRGB c)) (filter (\<lambda>c. hue (hexToRGB c) = h) colors)"
    by (simp add: L_def key_def filter_map comp_def)
  finally have stable: "filter (\<lambda>c. hue (hexToRGB c) = h) (sortColorsBy hue colors)
       = map (\<lambda>c. rgbToHex (hexToRGB c)) (filter (\<lambda>c. hue (hexToRGB c) = h) colors)"
    unfolding out .
  have keys: "map (\<lambda>c. - hue (hexToRGB c)) (map (\<lambda>p. rgbToHex (snd p)) S) = map key S"
    using valid by (simp add: key_def)
  have "sorted (map key S)"
    unfolding S_def by (rule sorted_sort_key)
  then have ordered: "sorted (map (\<lambda>c. - hue (hexToRGB c)) (sortColorsBy hue colors))"
    by (simp only: out keys)
  from idem stable ordered show ?thesis by blast
qed


text \<open>
  Claim C8. The sort of the palette by descending hue is idempotent and stable, for every
  list of colour strings and for every hue function, the double-precision \<open>rgbToHue\<close>
  of the program among them: sorting its own output returns that output, and the
  colours of any one hue appear in the output in their original order, each in the form
  \<open>rgbToHex\<close> writes it. The output is in descending order of hue.
\<close>

theorem hue_sort_idempotent_stable:
  "sortColorsBy hue (sortColorsBy hue colors) = sortColorsBy hue colors
   \<and> filter (\<lambda>c. hue (hexToRGB c) = h) (sortColorsBy hue colors)
       = map (\<lambda>c. rgbToHex (hexToRGB c)) (filter (\<lambda>c. hue (hexToRGB c) = h) colors)
   \<and> sorted (map (\<lambda>c. - hue (hexToRGB c)) (sortColorsBy hue colors))
   \<and> sortColorsByBlueToRed (sortColorsByBlueToRed colors) = sortColorsByBlueToRed colors
   \<and> filter (\<lambda>c. rgbToHue (hexToRGB c) = h) (sortColorsByBlueToRed colors)
       = map (\<lambda>c. rgbToHex (hexToRGB c)) (filter (\<lambda>c. rgbToHue (hexToRGB c) = h) colors)"
  using sortColorsBy_properties [of hue colors h] sortColorsBy_properties [of rgbToHue colors h]
  by (simp only: sortColorsByBlueToRed_def simp_thms)

end
